theory Spec2Isabelle
  imports Complex_Main "HOL-Library.AList"
begin

section \<open>The document store\<close>

text \<open>
  The locks and the job lifecycle of \<^verbatim>\<open>compdb.contrib\<close> act on one MongoDB collection
  through pymongo. The collection is the only shared state, and every call the code
  makes on it is atomic on one document. The model keeps the documents as maps from
  field names to BSON values, and counts the operations the collection has served
  (\<open>calls\<close>, a ghost counter used to say "exactly one call" and "no call").
\<close>

datatype bson =
    BInt int
  | BStr string
  | BUuid nat
  | BDate nat
  | BList "bson list"
  | BDoc "(string \<times> bson) list"

type_synonym document = "string \<rightharpoonup> bson"

record collection =
  docs :: "string \<rightharpoonup> document"
  calls :: nat

datatype error =
    ValueError
  | OverflowError
  | DocumentLockError
  | TypeError
  | KeyError
  | AttributeError
  | AssertionError
  | OperationFailure

definition tick :: "collection \<Rightarrow> collection" where
  "tick c = c\<lparr>calls := Suc (calls c)\<rparr>"

subsection \<open>Query predicates\<close>

text \<open>
  \<^verbatim>\<open>{field: {'$exists': False}}\<close> matches a document without the field;
  \<^verbatim>\<open>{field: v}\<close> matches a document whose field equals \<open>v\<close>, or is an array with an
  element equal to \<open>v\<close>. The \<^verbatim>\<open>_id\<close> part of every query selects the document and is the
  key of \<open>docs\<close>.
\<close>

definition not_exists :: "string \<Rightarrow> document \<Rightarrow> bool" where
  "not_exists f d = (d f = None)"

definition field_eq :: "string \<Rightarrow> bson \<Rightarrow> document \<Rightarrow> bool" where
  "field_eq f v d =
     (case d f of
        None \<Rightarrow> False
      | Some (BList xs) \<Rightarrow> BList xs = v \<or> v \<in> set xs
      | Some x \<Rightarrow> x = v)"

subsection \<open>Update operators\<close>

text \<open>
  An update operator maps a document to the updated document, or fails with
  \<open>OperationFailure\<close> when the field has the wrong type. \<^verbatim>\<open>$unset\<close> of a missing field
  changes nothing, \<^verbatim>\<open>$inc\<close> of a missing field creates it with the increment,
  \<^verbatim>\<open>$push\<close> to a missing field creates a one-element array, \<^verbatim>\<open>$pull\<close> removes every
  element equal to the value.
\<close>

type_synonym update = "document \<Rightarrow> error + document"

definition op_set :: "string \<Rightarrow> bson \<Rightarrow> update" where
  "op_set f v d = Inr (d(f \<mapsto> v))"

definition op_unset :: "string \<Rightarrow> update" where
  "op_unset f d = Inr (d(f := None))"

definition op_inc :: "string \<Rightarrow> int \<Rightarrow> update" where
  "op_inc f n d =
     (case d f of
        None \<Rightarrow> Inr (d(f \<mapsto> BInt n))
      | Some (BInt m) \<Rightarrow> Inr (d(f \<mapsto> BInt (m + n)))
      | Some _ \<Rightarrow> Inl OperationFailure)"

definition op_push :: "string \<Rightarrow> bson \<Rightarrow> update" where
  "op_push f v d =
     (case d f of
        None \<Rightarrow> Inr (d(f \<mapsto> BList [v]))
      | Some (BList xs) \<Rightarrow> Inr (d(f \<mapsto> BList (xs @ [v])))
      | Some _ \<Rightarrow> Inl OperationFailure)"

definition op_pull :: "string \<Rightarrow> bson \<Rightarrow> update" where
  "op_pull f v d =
     (case d f of
        None \<Rightarrow> Inr d
      | Some (BList xs) \<Rightarrow> Inr (d(f \<mapsto> BList (removeAll v xs)))
      | Some _ \<Rightarrow> Inl OperationFailure)"

text \<open>The dotted paths \<^verbatim>\<open>'pulse.<id>'\<close> address a key of an embedded document.\<close>

definition op_set_sub :: "string \<Rightarrow> string \<Rightarrow> bson \<Rightarrow> update" where
  "op_set_sub f k v d =
     (case d f of
        None \<Rightarrow> Inr (d(f \<mapsto> BDoc [(k, v)]))
      | Some (BDoc kvs) \<Rightarrow> Inr (d(f \<mapsto> BDoc (AList.update k v kvs)))
      | Some _ \<Rightarrow> Inl OperationFailure)"


definition both :: "update \<Rightarrow> update \<Rightarrow> update" where
  "both u1 u2 d = (case u1 d of Inl e \<Rightarrow> Inl e | Inr d' \<Rightarrow> u2 d')"

subsection \<open>The collection's calls\<close>

text \<open>
  \<^verbatim>\<open>find_and_modify(query, update, new)\<close> (and pymongo 3's \<^verbatim>\<open>find_one_and_update\<close>):
  when the document exists and satisfies the query, the update is applied and the
  document is returned, as it was before the update or, with \<^verbatim>\<open>new=True\<close>, as it is
  after; otherwise nothing changes and the result is \<^verbatim>\<open>None\<close>.
\<close>

definition find_and_modify ::
  "collection \<Rightarrow> string \<Rightarrow> (document \<Rightarrow> bool) \<Rightarrow> update \<Rightarrow> bool
     \<Rightarrow> (error + document option) \<times> collection" where
  "find_and_modify c i q u new =
     (case docs c i of
        None \<Rightarrow> (Inr None, tick c)
      | Some d \<Rightarrow>
          if q d then
            (case u d of
               Inl e \<Rightarrow> (Inl e, tick c)
             | Inr d' \<Rightarrow>
                 (Inr (Some (if new then d' else d)), tick (c\<lparr>docs := (docs c)(i \<mapsto> d')\<rparr>)))
          else (Inr None, tick c))"

definition find_one :: "collection \<Rightarrow> string \<Rightarrow> document option \<times> collection" where
  "find_one c i = (docs c i, tick c)"

section \<open>concurrency.py: the document locks\<close>

definition LOCK_ID_FIELD :: string where
  "LOCK_ID_FIELD = ''_lock_id''"

definition LOCK_COUNTER_FIELD :: string where
  "LOCK_COUNTER_FIELD = ''_lock_counter''"

text \<open>
  A lock object: its token (\<^verbatim>\<open>uuid4()\<close>), the id of the document it locks, and the
  blocking mode and timeout used when it is entered as a context manager. The
  collection is passed to every operation.
\<close>

record lock =
  lock_id :: nat
  document_id :: string
  lk_blocking :: bool
  lk_timeout :: real

subsection \<open>DocumentLock\<close>

text \<open>\<^verbatim>\<open>DocumentLock._acquire\<close> and \<^verbatim>\<open>DocumentLock._release\<close>.\<close>

definition Lock_acquire :: "lock \<Rightarrow> collection \<Rightarrow> (error + bool) \<times> collection" where
  "Lock_acquire lk c =
     (case find_and_modify c (document_id lk)
             (not_exists LOCK_ID_FIELD)
             (op_set LOCK_ID_FIELD (BUuid (lock_id lk))) False of
        (Inl e, c') \<Rightarrow> (Inl e, c')
      | (Inr result, c') \<Rightarrow> (Inr (result \<noteq> None), c'))"

definition Lock_release :: "lock \<Rightarrow> collection \<Rightarrow> (error + unit) \<times> collection" where
  "Lock_release lk c =
     (case find_and_modify c (document_id lk)
             (field_eq LOCK_ID_FIELD (BUuid (lock_id lk)))
             (op_unset LOCK_ID_FIELD) False of
        (Inl e, c') \<Rightarrow> (Inl e, c')
      | (Inr None, c') \<Rightarrow> (Inl DocumentLockError, c')
      | (Inr (Some _), c') \<Rightarrow> (Inr (), c'))"

subsection \<open>DocumentRLock\<close>

text \<open>
  \<^verbatim>\<open>DocumentRLock._acquire\<close> and \<^verbatim>\<open>DocumentRLock._release\<close>. The full release unsets
  the fields \<^verbatim>\<open>_lock_id\<close> and \<^verbatim>\<open>lock_level\<close>, as the source writes them.
\<close>

definition RLock_acquire :: "lock \<Rightarrow> collection \<Rightarrow> (error + bool) \<times> collection" where
  "RLock_acquire lk c =
     (case find_and_modify c (document_id lk)
             (\<lambda>d. not_exists LOCK_ID_FIELD d \<or> field_eq LOCK_ID_FIELD (BUuid (lock_id lk)) d)
             (both (op_set LOCK_ID_FIELD (BUuid (lock_id lk))) (op_inc LOCK_COUNTER_FIELD 1))
             True of
        (Inl e, c') \<Rightarrow> (Inl e, c')
      | (Inr result, c') \<Rightarrow> (Inr (result \<noteq> None), c'))"

definition RLock_release :: "lock \<Rightarrow> collection \<Rightarrow> (error + unit) \<times> collection" where
  "RLock_release lk c =
     (case find_and_modify c (document_id lk)
             (\<lambda>d. field_eq LOCK_ID_FIELD (BUuid (lock_id lk)) d
                  \<and> field_eq LOCK_COUNTER_FIELD (BInt 1) d)
             (both (op_unset LOCK_ID_FIELD) (op_unset ''lock_level'')) False of
        (Inl e, c') \<Rightarrow> (Inl e, c')
      | (Inr (Some _), c') \<Rightarrow> (Inr (), c')
      | (Inr None, c') \<Rightarrow>
          (case find_and_modify c' (document_id lk)
                  (field_eq LOCK_ID_FIELD (BUuid (lock_id lk)))
                  (op_inc LOCK_COUNTER_FIELD (- 1)) True of
             (Inl e, c'') \<Rightarrow> (Inl e, c'')
           | (Inr None, c'') \<Rightarrow> (Inl DocumentLockError, c'')
           | (Inr (Some _), c'') \<Rightarrow> (Inr (), c'')))"

text \<open>\<^verbatim>\<open>DocumentBaseLock.force_release\<close>: both lock fields are unset, whoever owns them.\<close>

definition force_release :: "lock \<Rightarrow> collection \<Rightarrow> (error + unit) \<times> collection" where
  "force_release lk c =
     (case find_and_modify c (document_id lk) (\<lambda>d. True)
             (both (op_unset LOCK_ID_FIELD) (op_unset LOCK_COUNTER_FIELD)) False of
        (Inl e, c') \<Rightarrow> (Inl e, c')
      | (Inr _, c') \<Rightarrow> (Inr (), c'))"

subsection \<open>Lock objects racing for one document\<close>

text \<open>
  Any number of \<^verbatim>\<open>DocumentLock\<close> objects, each with its own token, issue
  \<^verbatim>\<open>_acquire\<close> and \<^verbatim>\<open>_release\<close> calls on the document \<open>i\<close>. The store serves the calls one
  at a time, so a concurrent execution is a sequence of such calls in some order. The
  list \<open>lw_holders\<close> records the tokens whose \<^verbatim>\<open>_acquire\<close> returned \<^verbatim>\<open>True\<close> and that have
  not released since.
\<close>

datatype lock_event = Acquire nat | Release nat

record lock_world =
  lw_store :: collection
  lw_holders :: "nat list"

definition the_lock :: "string \<Rightarrow> nat \<Rightarrow> lock" where
  "the_lock i l = \<lparr>lock_id = l, document_id = i, lk_blocking = True, lk_timeout = - 1\<rparr>"

fun lock_step :: "string \<Rightarrow> lock_world \<Rightarrow> lock_event \<Rightarrow> lock_world" where
  "lock_step i w (Acquire l) =
     (case Lock_acquire (the_lock i l) (lw_store w) of
        (r, c') \<Rightarrow>
          \<lparr>lw_store = c',
           lw_holders = (if r = Inr True then lw_holders w @ [l] else lw_holders w)\<rparr>)"
| "lock_step i w (Release l) =
     (case Lock_release (the_lock i l) (lw_store w) of
        (r, c') \<Rightarrow>
          \<lparr>lw_store = c',
           lw_holders = (if r = Inr () then remove1 l (lw_holders w) else lw_holders w)\<rparr>)"

definition run_locks :: "string \<Rightarrow> lock_event list \<Rightarrow> lock_world \<Rightarrow> lock_world" where
  "run_locks i evs w = foldl (lock_step i) w evs"

subsection \<open>DocumentBaseLock.acquire\<close>

text \<open>
  With \<^verbatim>\<open>blocking\<close> set, \<^verbatim>\<open>acquire\<close> starts the thread \<^verbatim>\<open>try_to_acquire\<close> and joins it. The
  two threads are modelled by their program points; a schedule says which of them
  moves next and when a timed wait runs out (time itself is not modelled: a timed wait
  may run out at any moment). \<open>Env\<close> is the activity of other processes on the
  collection. \<open>attempts\<close> counts the store calls of the retry thread.

  The program points of the caller: \<open>MStart\<close> before \<^verbatim>\<open>t_acq.start()\<close>, \<open>MJoin\<close> in
  \<^verbatim>\<open>t_acq.join(timeout = None if timeout == -1 else timeout)\<close>, \<open>MCheckAlive\<close> at
  \<^verbatim>\<open>if t_acq.is_alive()\<close>, \<open>MSetStop\<close> before \<^verbatim>\<open>stop_event.set()\<close>, \<open>MJoinFinal\<close> in
  \<^verbatim>\<open>t_acq.join()\<close>, \<open>MReturned b\<close> after \<^verbatim>\<open>return b\<close>. Those of the thread: \<open>TLoopTest\<close> at
  \<^verbatim>\<open>while(not stop_event.is_set())\<close>, \<open>TAcquire\<close> before \<^verbatim>\<open>self._acquire()\<close>, \<open>TWait\<close> in
  \<^verbatim>\<open>stop_event.wait(...)\<close>, \<open>TFinished\<close> once the function has returned or raised.

  The in-process \<^verbatim>\<open>threading.Lock\<close> taken by \<^verbatim>\<open>acquire_timeout\<close> around the body
  serialises callers that share one lock object; the model follows one caller, who
  finds it free. Its \<^verbatim>\<open>acquire(blocking, timeout)\<close> raises \<^verbatim>\<open>ValueError\<close> for a negative
  timeout other than -1, before the thread is started.
\<close>

datatype main_pc = MStart | MJoin | MCheckAlive | MSetStop | MJoinFinal | MReturned bool

datatype thread_pc = TNotStarted | TLoopTest | TAcquire | TWait | TFinished "error + bool option"

record acq_state =
  m_pc :: main_pc
  t_pc :: thread_pc
  stop_event :: bool
  store :: collection
  attempts :: nat

datatype sched =
    StepMain
  | TimeoutMain
  | StepThread
  | TimeoutThread
  | Env "string \<rightharpoonup> document" nat

type_synonym inner_acquire = "lock \<Rightarrow> collection \<Rightarrow> (error + bool) \<times> collection"

definition is_alive :: "acq_state \<Rightarrow> bool" where
  "is_alive s = (case t_pc s of TNotStarted \<Rightarrow> False | TFinished _ \<Rightarrow> False | _ \<Rightarrow> True)"

fun acq_step :: "inner_acquire \<Rightarrow> lock \<Rightarrow> real \<Rightarrow> sched \<Rightarrow> acq_state \<Rightarrow> acq_state option" where
  "acq_step inner lk timeout StepMain s =
     (case m_pc s of
        MStart \<Rightarrow> Some (s\<lparr>m_pc := MJoin, t_pc := TLoopTest\<rparr>)
      | MJoin \<Rightarrow> if is_alive s then None else Some (s\<lparr>m_pc := MCheckAlive\<rparr>)
      | MCheckAlive \<Rightarrow> Some (s\<lparr>m_pc := (if is_alive s then MSetStop else MReturned True)\<rparr>)
      | MSetStop \<Rightarrow> Some (s\<lparr>m_pc := MJoinFinal, stop_event := True\<rparr>)
      | MJoinFinal \<Rightarrow> if is_alive s then None else Some (s\<lparr>m_pc := MReturned False\<rparr>)
      | MReturned b \<Rightarrow> None)"
| "acq_step inner lk timeout TimeoutMain s =
     (if m_pc s = MJoin \<and> timeout \<noteq> - 1 then Some (s\<lparr>m_pc := MCheckAlive\<rparr>) else None)"
| "acq_step inner lk timeout StepThread s =
     (case t_pc s of
        TNotStarted \<Rightarrow> None
      | TLoopTest \<Rightarrow>
          Some (s\<lparr>t_pc := (if stop_event s then TFinished (Inr None) else TAcquire)\<rparr>)
      | TAcquire \<Rightarrow>
          (case inner lk (store s) of
             (Inl e, c') \<Rightarrow>
               Some (s\<lparr>t_pc := TFinished (Inl e), store := c', attempts := Suc (attempts s)\<rparr>)
           | (Inr True, c') \<Rightarrow>
               Some (s\<lparr>t_pc := TFinished (Inr (Some True)), store := c',
                       attempts := Suc (attempts s)\<rparr>)
           | (Inr False, c') \<Rightarrow>
               Some (s\<lparr>t_pc := TWait, store := c', attempts := Suc (attempts s)\<rparr>))
      | TWait \<Rightarrow> if stop_event s then Some (s\<lparr>t_pc := TLoopTest\<rparr>) else None
      | TFinished r \<Rightarrow> None)"
| "acq_step inner lk timeout TimeoutThread s =
     (if t_pc s = TWait then Some (s\<lparr>t_pc := TLoopTest\<rparr>) else None)"
| "acq_step inner lk timeout (Env ds n) s =
     Some (s\<lparr>store := \<lparr>docs = ds, calls = calls (store s) + n\<rparr>\<rparr>)"

fun acq_run :: "inner_acquire \<Rightarrow> lock \<Rightarrow> real \<Rightarrow> sched list \<Rightarrow> acq_state \<Rightarrow> acq_state option" where
  "acq_run inner lk timeout [] s = Some s"
| "acq_run inner lk timeout (e # es) s =
     (case acq_step inner lk timeout e s of
        None \<Rightarrow> None
      | Some s' \<Rightarrow> acq_run inner lk timeout es s')"

definition acq_init :: "collection \<Rightarrow> acq_state" where
  "acq_init c =
     \<lparr>m_pc = MStart, t_pc = TNotStarted, stop_event = False, store = c, attempts = 0\<rparr>"

text \<open>
  \<^verbatim>\<open>acquire(blocking, timeout)\<close>. \<open>TIMEOUT_MAX\<close> is \<^verbatim>\<open>threading.TIMEOUT_MAX\<close>, a constant
  of the platform. The third check is the one \<^verbatim>\<open>threading.Lock.acquire\<close> makes on
  entering \<^verbatim>\<open>acquire_timeout\<close>. The result is \<open>None\<close> when the call has not returned by
  the end of the schedule.
\<close>

definition acquire ::
  "real \<Rightarrow> inner_acquire \<Rightarrow> sched list \<Rightarrow> lock \<Rightarrow> bool \<Rightarrow> real \<Rightarrow> collection
     \<Rightarrow> ((error + bool) \<times> collection) option" where
  "acquire TIMEOUT_MAX inner sch lk blocking timeout c =
     (if \<not> blocking \<and> timeout \<noteq> - 1 then Some (Inl ValueError, c)
      else if timeout > TIMEOUT_MAX then Some (Inl OverflowError, c)
      else if blocking \<and> timeout < 0 \<and> timeout \<noteq> - 1 then Some (Inl ValueError, c)
      else if blocking then
        (case acq_run inner lk timeout sch (acq_init c) of
           None \<Rightarrow> None
         | Some s \<Rightarrow>
             (case m_pc s of
                MReturned b \<Rightarrow> Some (Inr b, store s)
              | _ \<Rightarrow> None))
      else Some (inner lk c))"


section \<open>job.py: the job lifecycle\<close>

definition JOB_ERROR_KEY :: string where
  "JOB_ERROR_KEY = ''error''"


text \<open>
  pymongo's \<^verbatim>\<open>update_one(filter, update, upsert)\<close> (and the older \<^verbatim>\<open>update\<close>) checks
  its \<^verbatim>\<open>update\<close> argument before it talks to the server: an argument that is not a
  mapping raises \<^verbatim>\<open>TypeError\<close>. Otherwise the update is applied to the document, which
  \<^verbatim>\<open>upsert\<close> creates when it is missing.
\<close>

datatype update_arg = Mapping update | Tuple "update_arg list"

definition update_one ::
  "collection \<Rightarrow> string \<Rightarrow> update_arg \<Rightarrow> bool \<Rightarrow> (error + unit) \<times> collection" where
  "update_one c i ua upsert =
     (case ua of
        Tuple _ \<Rightarrow> (Inl TypeError, c)
      | Mapping u \<Rightarrow>
          (case docs c i of
             None \<Rightarrow>
               if upsert then
                 (case u Map.empty of
                    Inl e \<Rightarrow> (Inl e, tick c)
                  | Inr d' \<Rightarrow> (Inr (), tick (c\<lparr>docs := (docs c)(i \<mapsto> d')\<rparr>)))
               else (Inr (), tick c)
           | Some d \<Rightarrow>
               (case u d of
                  Inl e \<Rightarrow> (Inl e, tick c)
                | Inr d' \<Rightarrow> (Inr (), tick (c\<lparr>docs := (docs c)(i \<mapsto> d')\<rparr>)))))"

subsection \<open>pulse_worker\<close>

text \<open>
  Each round of the loop waits on the stop event for one period. \<open>Stop\<close>: the wait
  returned \<^verbatim>\<open>True\<close>; \<open>Beat now\<close>: it timed out, and \<^verbatim>\<open>datetime.utcnow()\<close> then gives
  \<open>now\<close>. The worker is \<open>Waiting\<close> when the rounds given are used up. The source builds
  the update with a trailing comma: \<^verbatim>\<open>update = {'$set': {...}},\<close> is a tuple of one
  dictionary.
\<close>

datatype wait_result = Stop | Beat nat

datatype worker_end = Stopped | Waiting | Crashed error

fun pulse_worker ::
  "collection \<Rightarrow> string \<Rightarrow> string \<Rightarrow> wait_result list \<Rightarrow> worker_end \<times> collection" where
  "pulse_worker c job_id unique_id [] = (Waiting, c)"
| "pulse_worker c job_id unique_id (Stop # ws) = (Stopped, c)"
| "pulse_worker c job_id unique_id (Beat now # ws) =
     (case update_one c job_id
             (Tuple [Mapping (op_set_sub ''pulse'' unique_id (BDate now))]) True of
        (Inl e, c') \<Rightarrow> (Crashed e, c')
      | (Inr _, c') \<Rightarrow> pulse_worker c' job_id unique_id ws)"

subsection \<open>OnlineJob\<close>

text \<open>
  The fields of a job object that the lifecycle uses: \<open>j_id\<close> is the cached result of
  \<^verbatim>\<open>get_id()\<close>, \<open>j_pulse\<close> the handle of the pulse worker, \<open>j_pulse_stop_event\<close> the flag
  of its stop event. The state of a run is the job object, the collection of jobs,
  the working directory of the process and the messages logged at level \<^verbatim>\<open>info\<close>.
  The \<open>journal\<close> lists, in the order of execution, what the job has done to the
  collection: the calls it has issued, and the entering and leaving of a lock, each
  with the lock token that the job document carried just before (a ghost field, used
  to say in which order, and under which lock, the calls are made).
\<close>

datatype worker = WorkerProcess | WorkerThread

record job =
  j_unique_id :: string
  j_id :: string
  j_parameters :: bson
  j_cwd :: "string option"
  j_pulse :: "worker option"
  j_pulse_stop_event :: "bool option"
  j_registered_flag :: bool
  j_blocking :: bool
  j_timeout :: real

datatype call =
    JFind
  | JUpsert
  | JPush string
  | JPull string
  | JUnset string
  | JLockAcquired nat
  | JLockReleased nat

record jstate =
  self :: job
  jobs :: collection
  os_cwd :: string
  info_log :: "string list"
  journal :: "(call \<times> bson option) list"

definition owner_of :: "collection \<Rightarrow> string \<Rightarrow> bson option" where
  "owner_of c i = (case docs c i of None \<Rightarrow> None | Some d \<Rightarrow> d LOCK_ID_FIELD)"

text \<open>The state after the job has done \<open>k\<close>, which left the collection as \<open>c'\<close>.\<close>

definition issue :: "call \<Rightarrow> collection \<Rightarrow> jstate \<Rightarrow> jstate" where
  "issue k c' s =
     s\<lparr>jobs := c', journal := journal s @ [(k, owner_of (jobs s) (j_id (self s)))]\<rparr>"

type_synonym 'a action = "jstate \<Rightarrow> (error + 'a) \<times> jstate"

definition seq :: "'a action \<Rightarrow> ('a \<Rightarrow> 'b action) \<Rightarrow> 'b action" where
  "seq m f s = (case m s of (Inl e, s') \<Rightarrow> (Inl e, s') | (Inr x, s') \<Rightarrow> f x s')"

definition ret :: "'a \<Rightarrow> 'a action" where
  "ret x s = (Inr x, s)"

text \<open>Python's \<^verbatim>\<open>len\<close> on a value read from a document.\<close>

fun py_len :: "bson \<Rightarrow> error + nat" where
  "py_len (BList xs) = Inr (length xs)"
| "py_len (BStr x) = Inr (length x)"
| "py_len (BDoc kvs) = Inr (length kvs)"
| "py_len (BInt n) = Inl TypeError"
| "py_len (BUuid u) = Inl TypeError"
| "py_len (BDate t) = Inl TypeError"

text \<open>\<^verbatim>\<open>_add_instance\<close> and \<^verbatim>\<open>_remove_instance\<close>.\<close>

definition add_instance :: "unit action" where
  "add_instance s =
     (case update_one (jobs s) (j_id (self s))
             (Mapping (op_push ''executing'' (BStr (j_unique_id (self s))))) False of
        (r, c') \<Rightarrow> (r, issue (JPush ''executing'') c' s))"

definition remove_instance :: "nat action" where
  "remove_instance s =
     (case find_and_modify (jobs s) (j_id (self s)) (\<lambda>d. True)
             (op_pull ''executing'' (BStr (j_unique_id (self s)))) True of
        (Inl e, c') \<Rightarrow> (Inl e, issue (JPull ''executing'') c' s)
      | (Inr None, c') \<Rightarrow> (Inl TypeError, issue (JPull ''executing'') c' s)
      | (Inr (Some result), c') \<Rightarrow>
          (case result ''executing'' of
             None \<Rightarrow> (Inl KeyError, issue (JPull ''executing'') c' s)
           | Some v \<Rightarrow> (py_len v, issue (JPull ''executing'') c' s)))"











text \<open>\<^verbatim>\<open>_open_instances\<close>, \<^verbatim>\<open>num_open_instances\<close> and \<^verbatim>\<open>is_exclusive_instance\<close>.\<close>

definition open_instances :: "bson action" where
  "open_instances s =
     (case find_one (jobs s) (j_id (self s)) of
        (None, c') \<Rightarrow> (Inr (BList []), issue JFind c' s)
      | (Some job_doc, c') \<Rightarrow>
          (Inr (case job_doc ''executing'' of None \<Rightarrow> BList [] | Some v \<Rightarrow> v),
           issue JFind c' s))"

definition num_open_instances :: "nat action" where
  "num_open_instances = seq open_instances (\<lambda>v s. (py_len v, s))"

definition is_exclusive_instance :: "bool action" where
  "is_exclusive_instance = seq num_open_instances (\<lambda>n. ret (n \<le> 1))"

section \<open>Observations and invariants\<close>

text \<open>
  The lock record embedded in a document: the owner token and the depth, as the
  fields \<^verbatim>\<open>_lock_id\<close> and \<^verbatim>\<open>_lock_counter\<close> hold them.
\<close>

definition lock_view :: "collection \<Rightarrow> string \<Rightarrow> (bson option \<times> bson option) option" where
  "lock_view c i =
     (case docs c i of
        None \<Rightarrow> None
      | Some d \<Rightarrow> Some (d LOCK_ID_FIELD, d LOCK_COUNTER_FIELD))"

text \<open>\<open>n\<close> calls of \<^verbatim>\<open>DocumentRLock._acquire\<close>, or of \<^verbatim>\<open>_release\<close>, one after the other.\<close>

fun acquire_n :: "nat \<Rightarrow> lock \<Rightarrow> collection \<Rightarrow> (error + bool) list \<times> collection" where
  "acquire_n 0 lk c = ([], c)"
| "acquire_n (Suc n) lk c =
     (case RLock_acquire lk c of
        (r, c') \<Rightarrow> (case acquire_n n lk c' of (rs, c'') \<Rightarrow> (r # rs, c'')))"

fun release_n :: "nat \<Rightarrow> lock \<Rightarrow> collection \<Rightarrow> (error + unit) list \<times> collection" where
  "release_n 0 lk c = ([], c)"
| "release_n (Suc n) lk c =
     (case RLock_release lk c of
        (r, c') \<Rightarrow> (case release_n n lk c' of (rs, c'') \<Rightarrow> (r # rs, c'')))"

definition round_trip :: "nat \<Rightarrow> lock \<Rightarrow> collection \<Rightarrow> collection" where
  "round_trip k lk c = snd (release_n k lk (snd (acquire_n k lk c)))"



text \<open>
  The invariant of the racing lock objects: nobody holds the lock, or exactly one
  token does and the document carries it.
\<close>

definition lock_inv :: "string \<Rightarrow> lock_world \<Rightarrow> bool" where
  "lock_inv i w \<longleftrightarrow>
     lw_holders w = [] \<or>
     (\<exists>l d. lw_holders w = [l] \<and> docs (lw_store w) i = Some d
            \<and> d LOCK_ID_FIELD = Some (BUuid l))"

text \<open>
  The invariant of a blocking \<^verbatim>\<open>acquire\<close>: the thread exists once it is started, the
  stop event is set before the final join, and the caller has returned only after
  the thread has finished.
\<close>

definition acq_inv :: "acq_state \<Rightarrow> bool" where
  "acq_inv s \<longleftrightarrow>
     (m_pc s = MStart \<longleftrightarrow> t_pc s = TNotStarted) \<and>
     (m_pc s = MJoinFinal \<longrightarrow> stop_event s) \<and>
     (m_pc s = MReturned False \<longrightarrow> stop_event s) \<and>
     (\<forall>b. m_pc s = MReturned b \<longrightarrow> (\<exists>r. t_pc s = TFinished r))"

text \<open>
  A job document that one instance has open, with the job object of that instance,
  used to run the lifecycle on a concrete state.
\<close>

definition demo_job :: job where
  "demo_job =
     \<lparr>j_unique_id = ''u1'', j_id = ''job'', j_parameters = BDoc [],
      j_cwd = Some ''/home'', j_pulse = Some WorkerThread, j_pulse_stop_event = Some False,
      j_registered_flag = True, j_blocking = True, j_timeout = - 1\<rparr>"

definition demo_state :: "bson list \<Rightarrow> jstate" where
  "demo_state xs =
     \<lparr>self = demo_job,
      jobs = \<lparr>docs = [''job'' \<mapsto> [''executing'' \<mapsto> BList xs]], calls = 0\<rparr>,
      os_cwd = ''/work'', info_log = [], journal = []\<rparr>"


section \<open>Properties of the exclusive lock\<close>

lemma find_and_modify_calls:
  "calls (snd (find_and_modify c i q u new)) = Suc (calls c)"
  by (simp add: find_and_modify_def tick_def split: option.splits sum.splits)

text \<open>
  Claim C7. \<^verbatim>\<open>DocumentLock._release\<close> makes exactly one call on the collection. When the
  document is missing or its lock field does not match the token of the lock, the
  release raises \<^verbatim>\<open>DocumentLockError\<close> and no document has changed; when the field
  matches, the release succeeds and the field is unset.
\<close>

theorem Lock_release_mismatch:
  "calls (snd (Lock_release lk c)) = calls c + 1 \<and>
   ((\<forall>d. docs c (document_id lk) = Some d
          \<longrightarrow> \<not> field_eq LOCK_ID_FIELD (BUuid (lock_id lk)) d)
      \<longrightarrow> fst (Lock_release lk c) = Inl DocumentLockError
          \<and> docs (snd (Lock_release lk c)) = docs c) \<and>
   (\<forall>d. docs c (document_id lk) = Some d \<and> field_eq LOCK_ID_FIELD (BUuid (lock_id lk)) d
      \<longrightarrow> fst (Lock_release lk c) = Inr ()
          \<and> docs (snd (Lock_release lk c))
              = (docs c)(document_id lk \<mapsto> d(LOCK_ID_FIELD := None)))"
  by (auto simp: Lock_release_def find_and_modify_def tick_def op_unset_def
           split: option.splits sum.splits)

theorem Lock_release_mismatch_witness:
  "fst (Lock_release (the_lock ''job'' 5)
          \<lparr>docs = [''job'' \<mapsto> [LOCK_ID_FIELD \<mapsto> BUuid 7]], calls = 0\<rparr>) = Inl DocumentLockError
   \<and> docs (snd (Lock_release (the_lock ''job'' 5)
          \<lparr>docs = [''job'' \<mapsto> [LOCK_ID_FIELD \<mapsto> BUuid 7]], calls = 0\<rparr>))
       = [''job'' \<mapsto> [LOCK_ID_FIELD \<mapsto> BUuid 7]]
   \<and> fst (Lock_release (the_lock ''job'' 7)
          \<lparr>docs = [''job'' \<mapsto> [LOCK_ID_FIELD \<mapsto> BUuid 7]], calls = 0\<rparr>) = Inr ()"
  using Lock_release_mismatch
          [of "the_lock ''job'' 5" "\<lparr>docs = [''job'' \<mapsto> [LOCK_ID_FIELD \<mapsto> BUuid 7]], calls = 0\<rparr>"]
        Lock_release_mismatch
          [of "the_lock ''job'' 7" "\<lparr>docs = [''job'' \<mapsto> [LOCK_ID_FIELD \<mapsto> BUuid 7]], calls = 0\<rparr>"]
  by (simp add: the_lock_def field_eq_def)

lemma Lock_acquire_True:
  "fst (Lock_acquire lk c) = Inr True \<longleftrightarrow>
     (\<exists>d. docs c (document_id lk) = Some d \<and> d LOCK_ID_FIELD = None)"
  by (auto simp: Lock_acquire_def find_and_modify_def not_exists_def op_set_def
           split: option.splits)

lemma Lock_acquire_docs:
  "docs c (document_id lk) = Some d \<Longrightarrow> d LOCK_ID_FIELD = None \<Longrightarrow>
     docs (snd (Lock_acquire lk c)) = (docs c)(document_id lk \<mapsto> d(LOCK_ID_FIELD \<mapsto> BUuid (lock_id lk)))"
  by (simp add: Lock_acquire_def find_and_modify_def not_exists_def op_set_def tick_def)

lemma Lock_acquire_fail_docs:
  "fst (Lock_acquire lk c) \<noteq> Inr True \<Longrightarrow> docs (snd (Lock_acquire lk c)) = docs c"
  by (auto simp: Lock_acquire_def find_and_modify_def not_exists_def op_set_def tick_def
           split: option.splits)

lemma Lock_release_fail_docs:
  "fst (Lock_release lk c) \<noteq> Inr () \<Longrightarrow> docs (snd (Lock_release lk c)) = docs c"
  by (auto simp: Lock_release_def find_and_modify_def op_unset_def tick_def
           split: option.splits)

lemma Lock_release_ok:
  "fst (Lock_release lk c) = Inr () \<Longrightarrow> 
     \<exists>d. docs c (document_id lk) = Some d \<and> field_eq LOCK_ID_FIELD (BUuid (lock_id lk)) d \<and>
       docs (snd (Lock_release lk c)) = (docs c)(document_id lk \<mapsto> d(LOCK_ID_FIELD := None))"
  by (auto simp: Lock_release_def find_and_modify_def op_unset_def tick_def
           split: option.splits if_splits)

lemma field_eq_uuid:
  "d f = Some (BUuid a) \<Longrightarrow> field_eq f (BUuid b) d \<longleftrightarrow> a = b"
  by (simp add: field_eq_def)

lemma lock_step_Acquire:
  "lock_step i w (Acquire l) =
     \<lparr>lw_store = snd (Lock_acquire (the_lock i l) (lw_store w)),
      lw_holders = (if fst (Lock_acquire (the_lock i l) (lw_store w)) = Inr True
                    then lw_holders w @ [l] else lw_holders w)\<rparr>"
  by (simp split: prod.splits)

lemma lock_step_Release:
  "lock_step i w (Release l) =
     \<lparr>lw_store = snd (Lock_release (the_lock i l) (lw_store w)),
      lw_holders = (if fst (Lock_release (the_lock i l) (lw_store w)) = Inr ()
                    then remove1 l (lw_holders w) else lw_holders w)\<rparr>"
  by (simp split: prod.splits)

lemma lock_step_inv: "lock_inv i w \<Longrightarrow> lock_inv i (lock_step i w e)"
proof (cases e)
  case (Acquire l)
  assume inv: "lock_inv i w"
  let ?lk = "the_lock i l"
  have id: "document_id ?lk = i" "lock_id ?lk = l" by (simp_all add: the_lock_def)
  show ?thesis
  proof (cases "fst (Lock_acquire ?lk (lw_store w)) = Inr True")
    case True
    then obtain d where d: "docs (lw_store w) i = Some d" "d LOCK_ID_FIELD = None"
      using Lock_acquire_True[of ?lk "lw_store w"] id by auto
    with inv have "lw_holders w = []" by (auto simp: lock_inv_def)
    moreover have "docs (snd (Lock_acquire ?lk (lw_store w))) = (docs (lw_store w))(i \<mapsto> d(LOCK_ID_FIELD \<mapsto> BUuid l))"
      using Lock_acquire_docs[of "lw_store w" ?lk d] d id by simp
    ultimately show ?thesis using True Acquire
      by (simp add: lock_inv_def lock_step_Acquire del: lock_step.simps)
  next
    case False
    then have "docs (snd (Lock_acquire ?lk (lw_store w))) = docs (lw_store w)"
      by (rule Lock_acquire_fail_docs)
    with inv False Acquire show ?thesis
      by (simp add: lock_inv_def lock_step_Acquire del: lock_step.simps)
  qed
next
  case (Release l)
  assume inv: "lock_inv i w"
  let ?lk = "the_lock i l"
  have id: "document_id ?lk = i" "lock_id ?lk = l" by (simp_all add: the_lock_def)
  show ?thesis
  proof (cases "fst (Lock_release ?lk (lw_store w)) = Inr ()")
    case True
    from Lock_release_ok[OF True] obtain d where
      d: "docs (lw_store w) i = Some d" "field_eq LOCK_ID_FIELD (BUuid l) d"
      using id by auto
    have "lw_holders w = [] \<or> lw_holders w = [l]"
      using inv d by (auto simp: lock_inv_def field_eq_uuid)
    then show ?thesis using True Release
      by (auto simp: lock_inv_def lock_step_Release simp del: lock_step.simps)
  next
    case False
    then have "docs (snd (Lock_release ?lk (lw_store w))) = docs (lw_store w)"
      by (rule Lock_release_fail_docs)
    with inv False Release show ?thesis
      by (simp add: lock_inv_def lock_step_Release del: lock_step.simps)
  qed
qed

lemma run_locks_inv: "lock_inv i w \<Longrightarrow> lock_inv i (run_locks i evs w)"
  unfolding run_locks_def
  by (induction evs arbitrary: w) (simp_all add: lock_step_inv)

lemma Lock_acquire_calls: "calls (snd (Lock_acquire lk c)) = Suc (calls c)"
  using find_and_modify_calls[of c "document_id lk" "not_exists LOCK_ID_FIELD" "op_set LOCK_ID_FIELD (BUuid (lock_id lk))" False]
  by (cases "find_and_modify c (document_id lk) (not_exists LOCK_ID_FIELD) (op_set LOCK_ID_FIELD (BUuid (lock_id lk))) False")
     (auto simp: Lock_acquire_def split: sum.splits)

text \<open>
  Claim C1. However the \<^verbatim>\<open>_acquire\<close> and \<^verbatim>\<open>_release\<close> calls of any number of
  \<^verbatim>\<open>DocumentLock\<close> objects on one document are interleaved, at most one token holds
  the lock after every call, and the document carries the token of the holder. An
  \<^verbatim>\<open>_acquire\<close> returns \<^verbatim>\<open>True\<close> only when the document existed without a lock field;
  it is then one call on the collection, which sets the field to the caller's token.
\<close>

theorem mutual_exclusion:
  "length (lw_holders (run_locks i evs \<lparr>lw_store = c, lw_holders = []\<rparr>)) \<le> 1
   \<and> (\<forall>l \<in> set (lw_holders (run_locks i evs \<lparr>lw_store = c, lw_holders = []\<rparr>)).
        \<exists>d. docs (lw_store (run_locks i evs \<lparr>lw_store = c, lw_holders = []\<rparr>)) i = Some d
           \<and> d LOCK_ID_FIELD = Some (BUuid l))
   \<and> (fst (Lock_acquire lk c) = Inr True \<longrightarrow>
        (\<exists>d. docs c (document_id lk) = Some d \<and> d LOCK_ID_FIELD = None
            \<and> docs (snd (Lock_acquire lk c)) =
                (docs c)(document_id lk \<mapsto> d(LOCK_ID_FIELD \<mapsto> BUuid (lock_id lk))))
        \<and> calls (snd (Lock_acquire lk c)) = calls c + 1)"
proof -
  let ?w = "run_locks i evs \<lparr>lw_store = c, lw_holders = []\<rparr>"
  have "lock_inv i \<lparr>lw_store = c, lw_holders = []\<rparr>" by (simp add: lock_inv_def)
  then have inv: "lock_inv i ?w" by (rule run_locks_inv)
  then have 1: "length (lw_holders ?w) \<le> 1" by (auto simp: lock_inv_def)
  from inv have 2: "\<forall>l \<in> set (lw_holders ?w). \<exists>d. docs (lw_store ?w) i = Some d \<and> d LOCK_ID_FIELD = Some (BUuid l)"
    by (auto simp: lock_inv_def)
  have 3: "fst (Lock_acquire lk c) = Inr True \<longrightarrow>
        (\<exists>d. docs c (document_id lk) = Some d \<and> d LOCK_ID_FIELD = None
            \<and> docs (snd (Lock_acquire lk c)) =
                (docs c)(document_id lk \<mapsto> d(LOCK_ID_FIELD \<mapsto> BUuid (lock_id lk))))
        \<and> calls (snd (Lock_acquire lk c)) = calls c + 1"
    using Lock_acquire_True[of lk c] Lock_acquire_docs[of c lk] Lock_acquire_calls[of lk c] by auto
  from 1 2 3 show ?thesis by blast
qed


theorem mutual_exclusion_witness:
  "lw_holders (run_locks ''job'' [Acquire 1, Acquire 2, Release 2, Release 1, Acquire 2]
       \<lparr>lw_store = \<lparr>docs = [''job'' \<mapsto> Map.empty], calls = 0\<rparr>, lw_holders = []\<rparr>) = [2]
   \<and> lw_holders (run_locks ''job'' [Acquire 1, Acquire 2]
       \<lparr>lw_store = \<lparr>docs = [''job'' \<mapsto> Map.empty], calls = 0\<rparr>, lw_holders = []\<rparr>) = [1]
   \<and> fst (Lock_acquire (the_lock ''job'' 1) \<lparr>docs = [''job'' \<mapsto> Map.empty], calls = 0\<rparr>)
       = Inr True
   \<and> calls (snd (Lock_acquire (the_lock ''job'' 1) \<lparr>docs = [''job'' \<mapsto> Map.empty], calls = 0\<rparr>))
       = 1"
  using mutual_exclusion
          [of "''job''" "[Acquire 1, Acquire 2, Release 2, Release 1, Acquire 2]"
              "\<lparr>docs = [''job'' \<mapsto> Map.empty], calls = 0\<rparr>" "the_lock ''job'' 1"]
  by (simp add: run_locks_def Lock_acquire_def Lock_release_def find_and_modify_def
                not_exists_def field_eq_def op_set_def op_unset_def tick_def the_lock_def
                LOCK_ID_FIELD_def)

section \<open>Properties of the blocking acquire\<close>

lemma acq_init_inv: "acq_inv (acq_init c)"
  by (simp add: acq_inv_def acq_init_def)

lemma acq_step_inv:
  assumes "acq_inv s" and "acq_step inner lk timeout e s = Some s'"
  shows "acq_inv s'"
proof (cases e)
  case StepMain
  with assms show ?thesis
    by (cases "m_pc s"; cases "t_pc s")
       (auto simp: acq_inv_def is_alive_def split: if_splits)
next
  case TimeoutMain
  with assms show ?thesis
    by (auto simp: acq_inv_def split: if_splits)
next
  case StepThread
  with assms show ?thesis
    by (cases "t_pc s")
       (auto simp: acq_inv_def split: if_splits prod.splits sum.splits bool.splits)
next
  case TimeoutThread
  with assms show ?thesis
    by (auto simp: acq_inv_def split: if_splits)
next
  case (Env ds n)
  with assms show ?thesis
    by (auto simp: acq_inv_def)
qed

lemma acq_run_inv:
  "acq_inv s \<Longrightarrow> acq_run inner lk timeout evs s = Some s' \<Longrightarrow> acq_inv s'"
proof (induction evs arbitrary: s)
  case Nil
  then show ?case by simp
next
  case (Cons e evs)
  then show ?case
    by (auto split: option.splits dest: acq_step_inv)
qed

lemma acq_step_after_return:
  assumes "m_pc s = MReturned b" and "t_pc s = TFinished r"
    and "acq_step inner lk timeout e s = Some s'"
  shows "m_pc s' = MReturned b \<and> t_pc s' = TFinished r \<and> attempts s' = attempts s
         \<and> stop_event s' = stop_event s"
  using assms by (cases e) (auto split: if_splits)

lemma acq_run_after_return:
  "m_pc s = MReturned b \<Longrightarrow> t_pc s = TFinished r \<Longrightarrow>
   acq_run inner lk timeout evs s = Some s' \<Longrightarrow>
     m_pc s' = MReturned b \<and> t_pc s' = TFinished r \<and> attempts s' = attempts s"
proof (induction evs arbitrary: s)
  case Nil
  then show ?case by simp
next
  case (Cons e evs)
  from Cons.prems obtain s1 where
    s1: "acq_step inner lk timeout e s = Some s1" "acq_run inner lk timeout evs s1 = Some s'"
    by (auto split: option.splits)
  from acq_step_after_return[OF Cons.prems(1,2) s1(1)]
  have "m_pc s1 = MReturned b" "t_pc s1 = TFinished r" "attempts s1 = attempts s"
    by simp_all
  with Cons.IH[of s1] s1(2) show ?case by simp
qed

text \<open>
  Once the join has timed out with the thread alive, the caller returns \<^verbatim>\<open>False\<close>
  after at most five further steps of the two threads, in which the retry thread makes
  at most one more call on the collection.
\<close>

lemma cancel_terminates:
  assumes inv: "acq_inv s" and pc: "m_pc s = MSetStop"
  shows "\<exists>sch s'. length sch \<le> 5 \<and> acq_run inner lk timeout sch s = Some s'
           \<and> m_pc s' = MReturned False \<and> attempts s' \<le> Suc (attempts s)"
proof (cases "t_pc s")
  case TNotStarted
  with inv pc show ?thesis by (simp add: acq_inv_def)
next
  case TLoopTest
  with pc show ?thesis
    by (intro exI[of _ "[StepMain, StepThread, StepMain]"]) (simp add: is_alive_def)
next
  case TAcquire
  obtain r c' where i: "inner lk (store s) = (r, c')" by (cases "inner lk (store s)")
  show ?thesis
  proof (cases "r = Inr False")
    case True
    with pc TAcquire i show ?thesis
      by (intro exI[of _ "[StepMain, StepThread, StepThread, StepThread, StepMain]"])
         (simp add: is_alive_def)
  next
    case False
    with pc TAcquire i show ?thesis
      by (intro exI[of _ "[StepMain, StepThread, StepMain]"])
         (cases r; simp add: is_alive_def)
  qed
next
  case TWait
  with pc show ?thesis
    by (intro exI[of _ "[StepMain, StepThread, StepThread, StepMain]"]) (simp add: is_alive_def)
next
  case (TFinished r)
  with pc show ?thesis
    by (intro exI[of _ "[StepMain, StepMain]"]) (simp add: is_alive_def)
qed

text \<open>
  A return value \<^verbatim>\<open>False\<close> does not say that the document is free of the token: when
  the last attempt of the thread succeeds after the caller has seen it alive, the
  call returns \<^verbatim>\<open>False\<close> and the lock field stays set.
\<close>

lemma acquire_timeout_may_keep_lock:
  "acquire 100000 Lock_acquire
     [StepMain, StepThread, TimeoutMain, StepMain, StepThread, StepMain, StepMain]
     (the_lock ''job'' 5) True 2 \<lparr>docs = [''job'' \<mapsto> Map.empty], calls = 0\<rparr>
     = Some (Inr False, \<lparr>docs = [''job'' \<mapsto> [LOCK_ID_FIELD \<mapsto> BUuid 5]], calls = 1\<rparr>)"
  by (simp add: acquire_def acq_init_def is_alive_def Lock_acquire_def find_and_modify_def
                the_lock_def not_exists_def op_set_def tick_def)

text \<open>
  Claim C5. Whenever a blocking \<^verbatim>\<open>acquire\<close> returns \<^verbatim>\<open>False\<close>, under any schedule and
  whatever other processes do to the collection, the stop event is set and the retry
  thread has finished; and however the execution goes on from there, the thread
  stays finished and makes no further call on the collection.
\<close>

theorem acquire_timeout_joins_retry_thread:
  assumes "acquire TIMEOUT_MAX inner sch lk True timeout c = Some (Inr False, c')"
  shows "\<exists>s r. acq_run inner lk timeout sch (acq_init c) = Some s \<and> store s = c'
           \<and> m_pc s = MReturned False \<and> stop_event s \<and> t_pc s = TFinished r
           \<and> (\<forall>sch' s'. acq_run inner lk timeout sch' s = Some s'
                 \<longrightarrow> attempts s' = attempts s \<and> t_pc s' = TFinished r)"
proof -
  from assms obtain s where
    s: "acq_run inner lk timeout sch (acq_init c) = Some s" "m_pc s = MReturned False" "store s = c'"
    by (auto simp: acquire_def split: if_splits option.splits main_pc.splits)
  from acq_run_inv[OF acq_init_inv s(1)] have inv: "acq_inv s" .
  with s(2) obtain r where r: "t_pc s = TFinished r" and st: "stop_event s"
    by (auto simp: acq_inv_def)
  have "\<forall>sch' s'. acq_run inner lk timeout sch' s = Some s'
                 \<longrightarrow> attempts s' = attempts s \<and> t_pc s' = TFinished r"
    using acq_run_after_return[OF s(2) r] by blast
  with s r st show ?thesis by blast
qed

theorem acquire_timeout_joins_retry_thread_witness:
  "acquire 100000 Lock_acquire
     [StepMain, StepThread, StepThread, TimeoutMain, StepMain, StepMain, StepThread,
      StepThread, StepMain]
     (the_lock ''job'' 5) True 2
     \<lparr>docs = [''job'' \<mapsto> [LOCK_ID_FIELD \<mapsto> BUuid 7]], calls = 0\<rparr>
     = Some (Inr False, \<lparr>docs = [''job'' \<mapsto> [LOCK_ID_FIELD \<mapsto> BUuid 7]], calls = 1\<rparr>)
   \<and> (\<exists>s r. acq_run Lock_acquire (the_lock ''job'' 5) 2
               [StepMain, StepThread, StepThread, TimeoutMain, StepMain, StepMain, StepThread,
                StepThread, StepMain]
               (acq_init \<lparr>docs = [''job'' \<mapsto> [LOCK_ID_FIELD \<mapsto> BUuid 7]], calls = 0\<rparr>) = Some s
            \<and> stop_event s \<and> t_pc s = TFinished r \<and> attempts s = 1
            \<and> (\<forall>sch' s'. acq_run Lock_acquire (the_lock ''job'' 5) 2 sch' s = Some s'
                  \<longrightarrow> attempts s' = attempts s \<and> t_pc s' = TFinished r))"
proof -
  let ?c = "\<lparr>docs = [''job'' \<mapsto> [LOCK_ID_FIELD \<mapsto> BUuid 7]], calls = 0\<rparr>"
  let ?sch = "[StepMain, StepThread, StepThread, TimeoutMain, StepMain, StepMain, StepThread,
      StepThread, StepMain]"
  have run: "acq_run Lock_acquire (the_lock ''job'' 5) 2 ?sch (acq_init ?c)
      = Some \<lparr>m_pc = MReturned False, t_pc = TFinished (Inr None), stop_event = True,
              store = \<lparr>docs = [''job'' \<mapsto> [LOCK_ID_FIELD \<mapsto> BUuid 7]], calls = 1\<rparr>,
              attempts = 1\<rparr>"
    by (simp add: acq_init_def is_alive_def Lock_acquire_def find_and_modify_def
                  the_lock_def not_exists_def tick_def LOCK_ID_FIELD_def)
  then have a: "acquire 100000 Lock_acquire ?sch (the_lock ''job'' 5) True 2 ?c
      = Some (Inr False, \<lparr>docs = [''job'' \<mapsto> [LOCK_ID_FIELD \<mapsto> BUuid 7]], calls = 1\<rparr>)"
    by (simp add: acquire_def)
  from acquire_timeout_joins_retry_thread [OF a] run a show ?thesis
    by auto
qed

section \<open>Properties of the reentrant lock\<close>

lemma fields_distinct:
  "LOCK_ID_FIELD \<noteq> LOCK_COUNTER_FIELD" "LOCK_COUNTER_FIELD \<noteq> LOCK_ID_FIELD"
  "LOCK_ID_FIELD \<noteq> ''lock_level''" "LOCK_COUNTER_FIELD \<noteq> ''lock_level''"
  by (simp_all add: LOCK_ID_FIELD_def LOCK_COUNTER_FIELD_def)

lemma RLock_acquire_free:
  assumes "lock_view c (document_id lk) = Some (None, cnt)"
    and "cnt = None \<and> m = 0 \<or> cnt = Some (BInt m)"
  shows "fst (RLock_acquire lk c) = Inr True \<and>
         lock_view (snd (RLock_acquire lk c)) (document_id lk)
           = Some (Some (BUuid (lock_id lk)), Some (BInt (m + 1)))"
  using assms
  by (auto simp: lock_view_def RLock_acquire_def find_and_modify_def not_exists_def both_def
                 op_set_def op_inc_def tick_def fields_distinct
           split: option.splits)

lemma RLock_acquire_own:
  assumes "lock_view c (document_id lk) = Some (Some (BUuid (lock_id lk)), cnt)"
    and "cnt = None \<and> m = 0 \<or> cnt = Some (BInt m)"
  shows "fst (RLock_acquire lk c) = Inr True \<and>
         lock_view (snd (RLock_acquire lk c)) (document_id lk)
           = Some (Some (BUuid (lock_id lk)), Some (BInt (m + 1)))"
  using assms
  by (auto simp: lock_view_def RLock_acquire_def find_and_modify_def not_exists_def both_def
                 field_eq_def op_set_def op_inc_def tick_def fields_distinct
           split: option.splits)

lemma RLock_release_full:
  assumes "lock_view c (document_id lk) = Some (Some (BUuid (lock_id lk)), Some (BInt 1))"
  shows "fst (RLock_release lk c) = Inr () \<and>
         lock_view (snd (RLock_release lk c)) (document_id lk) = Some (None, Some (BInt 1))"
  using assms
  by (auto simp: lock_view_def RLock_release_def find_and_modify_def both_def
                 field_eq_def op_unset_def tick_def fields_distinct
           split: option.splits)

lemma RLock_release_partial:
  assumes "lock_view c (document_id lk) = Some (Some (BUuid (lock_id lk)), Some (BInt m))"
    and "m \<noteq> 1"
  shows "fst (RLock_release lk c) = Inr () \<and>
         lock_view (snd (RLock_release lk c)) (document_id lk)
           = Some (Some (BUuid (lock_id lk)), Some (BInt (m - 1)))"
  using assms
  by (auto simp: lock_view_def RLock_release_def find_and_modify_def both_def
                 field_eq_def op_unset_def op_inc_def tick_def fields_distinct
           split: option.splits)

lemma RLock_release_unlocked:
  assumes "lock_view c (document_id lk) = Some (None, cnt)"
  shows "fst (RLock_release lk c) = Inl DocumentLockError \<and>
         docs (snd (RLock_release lk c)) = docs c"
  using assms
  by (auto simp: lock_view_def RLock_release_def find_and_modify_def both_def
                 field_eq_def op_unset_def op_inc_def tick_def fields_distinct
           split: option.splits)

lemma acquire_n_own:
  "lock_view c (document_id lk) = Some (Some (BUuid (lock_id lk)), Some (BInt m)) \<Longrightarrow>
     fst (acquire_n k lk c) = replicate k (Inr True) \<and>
     lock_view (snd (acquire_n k lk c)) (document_id lk)
       = Some (Some (BUuid (lock_id lk)), Some (BInt (m + int k)))"
proof (induction k arbitrary: c m)
  case 0
  then show ?case by simp
next
  case (Suc k)
  from RLock_acquire_own[OF Suc.prems, of m]
  have a: "fst (RLock_acquire lk c) = Inr True"
    "lock_view (snd (RLock_acquire lk c)) (document_id lk)
       = Some (Some (BUuid (lock_id lk)), Some (BInt (m + 1)))" by simp_all
  from Suc.IH[OF a(2)] a(1) show ?case
    by (simp add: split_beta add.assoc)
qed

lemma acquire_n_free:
  assumes "lock_view c (document_id lk) = Some (None, cnt)"
    and "cnt = None \<and> m = 0 \<or> cnt = Some (BInt m)"
  shows "fst (acquire_n (Suc k) lk c) = replicate (Suc k) (Inr True) \<and>
     lock_view (snd (acquire_n (Suc k) lk c)) (document_id lk)
       = Some (Some (BUuid (lock_id lk)), Some (BInt (m + 1 + int k)))"
proof -
  from RLock_acquire_free[OF assms]
  have a: "fst (RLock_acquire lk c) = Inr True"
    "lock_view (snd (RLock_acquire lk c)) (document_id lk)
       = Some (Some (BUuid (lock_id lk)), Some (BInt (m + 1)))" by simp_all
  from acquire_n_own[OF a(2), of k] a(1) show ?thesis
    by (simp add: split_beta)
qed

lemma release_n_partial:
  "lock_view c (document_id lk) = Some (Some (BUuid (lock_id lk)), Some (BInt (1 + int j))) \<Longrightarrow>
     fst (release_n j lk c) = replicate j (Inr ()) \<and>
     lock_view (snd (release_n j lk c)) (document_id lk)
       = Some (Some (BUuid (lock_id lk)), Some (BInt 1))"
proof (induction j arbitrary: c)
  case 0
  then show ?case by simp
next
  case (Suc j)
  have "1 + int (Suc j) \<noteq> 1" by simp
  from RLock_release_partial[OF Suc.prems this]
  have a: "fst (RLock_release lk c) = Inr ()"
    "lock_view (snd (RLock_release lk c)) (document_id lk)
       = Some (Some (BUuid (lock_id lk)), Some (BInt (1 + int j)))" by simp_all
  from Suc.IH[OF a(2)] a(1) show ?case
    by (simp add: split_beta)
qed

lemma release_n_Suc_end:
  "release_n (Suc j) lk c =
     (fst (release_n j lk c) @ [fst (RLock_release lk (snd (release_n j lk c)))],
      snd (RLock_release lk (snd (release_n j lk c))))"
  by (induction j arbitrary: c) (simp_all add: split_beta)

text \<open>
  On a document that was never locked, the round trip of the reentrant lock works:
  \<open>k + 1\<close> acquisitions and \<open>k + 1\<close> releases succeed, the owner token is gone, and
  one more release raises \<^verbatim>\<open>DocumentLockError\<close>. The counter stays in the document
  with the value 1.
\<close>

lemma RLock_first_cycle:
  assumes "lock_view c (document_id lk) = Some (None, None)"
  shows "fst (acquire_n (Suc k) lk c) = replicate (Suc k) (Inr True) \<and>
         fst (release_n (Suc k) lk (snd (acquire_n (Suc k) lk c))) = replicate (Suc k) (Inr ()) \<and>
         lock_view (snd (release_n (Suc k) lk (snd (acquire_n (Suc k) lk c)))) (document_id lk)
           = Some (None, Some (BInt 1)) \<and>
         fst (RLock_release lk (snd (release_n (Suc k) lk (snd (acquire_n (Suc k) lk c)))))
           = Inl DocumentLockError"
proof -
  let ?c1 = "snd (acquire_n (Suc k) lk c)"
  from acquire_n_free[OF assms, of 0 k]
  have a: "fst (acquire_n (Suc k) lk c) = replicate (Suc k) (Inr True)"
    "lock_view ?c1 (document_id lk) = Some (Some (BUuid (lock_id lk)), Some (BInt (1 + int k)))"
    by simp_all
  from release_n_partial[OF a(2)]
  have b: "fst (release_n k lk ?c1) = replicate k (Inr ())"
    "lock_view (snd (release_n k lk ?c1)) (document_id lk)
       = Some (Some (BUuid (lock_id lk)), Some (BInt 1))" by simp_all
  from RLock_release_full[OF b(2)]
  have c: "fst (RLock_release lk (snd (release_n k lk ?c1))) = Inr ()"
    "lock_view (snd (RLock_release lk (snd (release_n k lk ?c1)))) (document_id lk)
       = Some (None, Some (BInt 1))" by simp_all
  have d: "fst (release_n (Suc k) lk ?c1) = replicate (Suc k) (Inr ())"
    using b(1) c(1) by (simp only: release_n_Suc_end fst_conv replicate_append_same) simp
  have e: "snd (release_n (Suc k) lk ?c1) = snd (RLock_release lk (snd (release_n k lk ?c1)))"
    by (simp only: release_n_Suc_end snd_conv)
  from RLock_release_unlocked[of "snd (release_n (Suc k) lk ?c1)" lk "Some (BInt 1)"] c(2) e
  have f: "fst (RLock_release lk (snd (release_n (Suc k) lk ?c1))) = Inl DocumentLockError"
    by simp
  from a(1) d c(2) e f show ?thesis by simp
qed

text \<open>
  On a document left by an earlier round trip (no owner, counter 1) the same calls
  leave the lock held by the token, and one more release succeeds.
\<close>

lemma RLock_second_cycle:
  assumes "lock_view c (document_id lk) = Some (None, Some (BInt 1))"
  shows "fst (acquire_n (Suc k) lk c) = replicate (Suc k) (Inr True) \<and>
         fst (release_n (Suc k) lk (snd (acquire_n (Suc k) lk c))) = replicate (Suc k) (Inr ()) \<and>
         lock_view (snd (release_n (Suc k) lk (snd (acquire_n (Suc k) lk c)))) (document_id lk)
           = Some (Some (BUuid (lock_id lk)), Some (BInt 1)) \<and>
         fst (RLock_release lk (snd (release_n (Suc k) lk (snd (acquire_n (Suc k) lk c)))))
           = Inr ()"
proof -
  let ?c1 = "snd (acquire_n (Suc k) lk c)"
  from acquire_n_free[OF assms, of 1 k]
  have a: "fst (acquire_n (Suc k) lk c) = replicate (Suc k) (Inr True)"
    "lock_view ?c1 (document_id lk) = Some (Some (BUuid (lock_id lk)), Some (BInt (1 + int (Suc k))))"
    by simp_all
  from release_n_partial[OF a(2)]
  have b: "fst (release_n (Suc k) lk ?c1) = replicate (Suc k) (Inr ())"
    "lock_view (snd (release_n (Suc k) lk ?c1)) (document_id lk)
       = Some (Some (BUuid (lock_id lk)), Some (BInt 1))" by simp_all
  from RLock_release_full[OF b(2)] a(1) b show ?thesis by simp
qed

text \<open>
  Claim C2 (the code departs from it). A lock object makes one acquisition and one
  release on a fresh document, and then again one acquisition and one release. After
  the first round trip the owner is gone and the counter is 1; after the second the
  document is still locked by the token, and a further release raises nothing.
\<close>

theorem RLock_second_round_trip_stays_locked:
  "lock_view (round_trip 1 (the_lock ''job'' 5) \<lparr>docs = [''job'' \<mapsto> Map.empty], calls = 0\<rparr>) ''job''
     = Some (None, Some (BInt 1))
   \<and> lock_view (round_trip 1 (the_lock ''job'' 5)
        (round_trip 1 (the_lock ''job'' 5) \<lparr>docs = [''job'' \<mapsto> Map.empty], calls = 0\<rparr>)) ''job''
     = Some (Some (BUuid 5), Some (BInt 1))
   \<and> fst (RLock_release (the_lock ''job'' 5) (round_trip 1 (the_lock ''job'' 5)
        (round_trip 1 (the_lock ''job'' 5) \<lparr>docs = [''job'' \<mapsto> Map.empty], calls = 0\<rparr>)))
     = Inr ()"
  by (simp add: round_trip_def lock_view_def RLock_release_def RLock_acquire_def
                find_and_modify_def both_def field_eq_def not_exists_def op_unset_def
                op_inc_def op_set_def tick_def the_lock_def LOCK_ID_FIELD_def
                LOCK_COUNTER_FIELD_def)

text \<open>
  Claim C3 (the code departs from it). The document is held by the token with depth 1.
  The release succeeds by the full release and removes the owner token, but the
  counter stays in the document with the value 1; the next acquisition brings it to 2.
\<close>

theorem RLock_full_release_keeps_counter:
  "fst (RLock_release (the_lock ''job'' 5)
          \<lparr>docs = [''job'' \<mapsto> [LOCK_ID_FIELD \<mapsto> BUuid 5, LOCK_COUNTER_FIELD \<mapsto> BInt 1]],
           calls = 0\<rparr>) = Inr ()
   \<and> lock_view (snd (RLock_release (the_lock ''job'' 5)
          \<lparr>docs = [''job'' \<mapsto> [LOCK_ID_FIELD \<mapsto> BUuid 5, LOCK_COUNTER_FIELD \<mapsto> BInt 1]],
           calls = 0\<rparr>)) ''job'' = Some (None, Some (BInt 1))
   \<and> lock_view (snd (RLock_acquire (the_lock ''job'' 5) (snd (RLock_release (the_lock ''job'' 5)
          \<lparr>docs = [''job'' \<mapsto> [LOCK_ID_FIELD \<mapsto> BUuid 5, LOCK_COUNTER_FIELD \<mapsto> BInt 1]],
           calls = 0\<rparr>)))) ''job'' = Some (Some (BUuid 5), Some (BInt 2))"
  by (simp add: lock_view_def RLock_release_def RLock_acquire_def
                find_and_modify_def both_def field_eq_def not_exists_def op_unset_def
                op_inc_def op_set_def tick_def the_lock_def LOCK_ID_FIELD_def
                LOCK_COUNTER_FIELD_def)

section \<open>Properties of the instance registry\<close>

text \<open>
  Claim C10. When the job document does not exist, \<^verbatim>\<open>num_open_instances\<close> returns 0
  without raising, and \<^verbatim>\<open>is_exclusive_instance\<close> returns \<^verbatim>\<open>True\<close>.
\<close>

theorem num_open_instances_missing:
  "docs (jobs s) (j_id (self s)) = None \<Longrightarrow>
     fst (num_open_instances s) = Inr 0 \<and> fst (is_exclusive_instance s) = Inr True"
  by (simp add: is_exclusive_instance_def num_open_instances_def open_instances_def
                find_one_def seq_def ret_def)

theorem num_open_instances_missing_witness:
  "docs (jobs ((demo_state [])\<lparr>jobs := \<lparr>docs = Map.empty, calls = 0\<rparr>\<rparr>)) ''job'' = None
   \<and> fst (num_open_instances ((demo_state [])\<lparr>jobs := \<lparr>docs = Map.empty, calls = 0\<rparr>\<rparr>)) = Inr 0
   \<and> fst (is_exclusive_instance ((demo_state [])\<lparr>jobs := \<lparr>docs = Map.empty, calls = 0\<rparr>\<rparr>))
       = Inr True"
  using num_open_instances_missing [of "(demo_state [])\<lparr>jobs := \<lparr>docs = Map.empty, calls = 0\<rparr>\<rparr>"]
  by (simp add: demo_state_def demo_job_def)

section \<open>Properties of the job lifecycle\<close>

lemma key_distinct:
  "JOB_ERROR_KEY \<noteq> LOCK_ID_FIELD" "JOB_ERROR_KEY \<noteq> ''executing''" "JOB_ERROR_KEY \<noteq> ''pulse''"
  "LOCK_ID_FIELD \<noteq> ''executing''" "LOCK_ID_FIELD \<noteq> ''pulse''"
  "LOCK_ID_FIELD \<noteq> JOB_ERROR_KEY" "''executing'' \<noteq> JOB_ERROR_KEY" "''pulse'' \<noteq> JOB_ERROR_KEY"
  "''executing'' \<noteq> LOCK_ID_FIELD " "''pulse'' \<noteq> LOCK_ID_FIELD"
  by (simp_all add: JOB_ERROR_KEY_def LOCK_ID_FIELD_def)









lemma remove_instance_ok:
  assumes "docs (jobs s) (j_id (self s)) = Some d"
    and "d ''executing'' = Some (BList xs)"
  shows "remove_instance s =
           (Inr (length (removeAll (BStr (j_unique_id (self s))) xs)),
            s\<lparr>jobs := tick ((jobs s)\<lparr>docs := (docs (jobs s))(j_id (self s) \<mapsto>
                 d(''executing'' \<mapsto> BList (removeAll (BStr (j_unique_id (self s))) xs)))\<rparr>),
              journal := journal s @ [(JPull ''executing'', d LOCK_ID_FIELD)]\<rparr>)"
  using assms
  by (simp add: remove_instance_def find_and_modify_def op_pull_def issue_def owner_of_def)










section \<open>Registry balance\<close>

lemma add_instance_ok:
  assumes "docs (jobs s) (j_id (self s)) = Some d"
    and "d ''executing'' = None \<and> xs = [] \<or> d ''executing'' = Some (BList xs)"
  shows "add_instance s =
           (Inr (), s\<lparr>jobs := tick ((jobs s)\<lparr>docs := (docs (jobs s))(j_id (self s) \<mapsto>
                 d(''executing'' \<mapsto> BList (xs @ [BStr (j_unique_id (self s))])))\<rparr>),
                      journal := journal s @ [(JPush ''executing'', d LOCK_ID_FIELD)]\<rparr>)"
  using assms by (auto simp: add_instance_def update_one_def op_push_def issue_def owner_of_def)

text \<open>
  Claim C9 (amended). On an existing job document, \<^verbatim>\<open>_add_instance\<close> appends the id of
  the instance to \<^verbatim>\<open>executing\<close> and changes no other field. \<^verbatim>\<open>_remove_instance\<close> then
  makes one call on the collection, which removes every occurrence of the id from the
  list in the document and changes no other field, and returns the length of the
  list it has left. When the id was not in the list before the add, that length is
  the length after the add, less one.
\<close>

theorem add_remove_instance_balance:
  assumes doc: "docs (jobs s) (j_id (self s)) = Some d"
    and exe: "d ''executing'' = None \<and> xs = [] \<or> d ''executing'' = Some (BList xs)"
  shows "\<exists>s1 s2.
           add_instance s = (Inr (), s1)
         \<and> docs (jobs s1)
             = (docs (jobs s))(j_id (self s) \<mapsto>
                 d(''executing'' \<mapsto> BList (xs @ [BStr (j_unique_id (self s))])))
         \<and> remove_instance s1
             = (Inr (length (removeAll (BStr (j_unique_id (self s))) xs)), s2)
         \<and> docs (jobs s2)
             = (docs (jobs s))(j_id (self s) \<mapsto>
                 d(''executing'' \<mapsto> BList (removeAll (BStr (j_unique_id (self s))) xs)))
         \<and> calls (jobs s2) = calls (jobs s1) + 1
         \<and> journal s2 = journal s @ [(JPush ''executing'', d LOCK_ID_FIELD),
                                         (JPull ''executing'', d LOCK_ID_FIELD)]
         \<and> (BStr (j_unique_id (self s)) \<notin> set xs \<longrightarrow>
                remove_instance s1
                  = (Inr (length (xs @ [BStr (j_unique_id (self s))]) - 1), s2)
              \<and> docs (jobs s2) = (docs (jobs s))(j_id (self s) \<mapsto> d(''executing'' \<mapsto> BList xs)))"
proof -
  let ?u = "BStr (j_unique_id (self s))"
  let ?d1 = "d(''executing'' \<mapsto> BList (xs @ [?u]))"
  let ?s1 = "s\<lparr>jobs := tick ((jobs s)\<lparr>docs := (docs (jobs s))(j_id (self s) \<mapsto> ?d1)\<rparr>),
               journal := journal s @ [(JPush ''executing'', d LOCK_ID_FIELD)]\<rparr>"
  let ?s2 = "snd (remove_instance ?s1)"
  have a: "add_instance s = (Inr (), ?s1)" by (rule add_instance_ok[OF doc exe])
  have d1: "docs (jobs ?s1) (j_id (self ?s1)) = Some ?d1" by (simp add: tick_def)
  have e1: "?d1 ''executing'' = Some (BList (xs @ [?u]))" by simp
  note r0 = remove_instance_ok[OF d1 e1]
  have rf: "fst (remove_instance ?s1) = Inr (length (removeAll ?u xs))"
    using r0 by simp
  have r: "remove_instance ?s1 = (Inr (length (removeAll ?u xs)), ?s2)"
    using rf by (simp add: prod_eq_iff)
  have docs1: "docs (jobs ?s1) = (docs (jobs s))(j_id (self s) \<mapsto> ?d1)"
    by (simp add: tick_def)
  have s2: "?s2 = ?s1\<lparr>jobs := tick ((jobs ?s1)\<lparr>docs := (docs (jobs ?s1))(j_id (self ?s1) \<mapsto>
                 ?d1(''executing'' \<mapsto>
                   BList (removeAll (BStr (j_unique_id (self ?s1))) (xs @ [?u]))))\<rparr>),
              journal := journal ?s1 @ [(JPull ''executing'', ?d1 LOCK_ID_FIELD)]\<rparr>"
    by (simp only: r0 snd_conv)
  have docs2: "docs (jobs ?s2)
      = (docs (jobs s))(j_id (self s) \<mapsto> d(''executing'' \<mapsto> BList (removeAll ?u xs)))"
    unfolding s2 by (simp add: tick_def)
  have calls2: "calls (jobs ?s2) = calls (jobs ?s1) + 1"
    unfolding s2 by (simp add: tick_def)
  have j2: "journal ?s2 = journal s @ [(JPush ''executing'', d LOCK_ID_FIELD),
                                         (JPull ''executing'', d LOCK_ID_FIELD)]"
    unfolding s2 by (simp add: key_distinct)
  have r': "?u \<notin> set xs \<longrightarrow>
      remove_instance ?s1 = (Inr (length (xs @ [?u]) - 1), ?s2)
      \<and> docs (jobs ?s2) = (docs (jobs s))(j_id (self s) \<mapsto> d(''executing'' \<mapsto> BList xs))"
    using rf docs2 by (auto simp: prod_eq_iff)
  from a docs1 r docs2 calls2 j2 r' show ?thesis
    by (intro exI[of _ ?s1] exI[of _ ?s2]) blast
qed

theorem add_remove_instance_balance_witness:
  "fst (add_instance (demo_state [BStr ''u0'', BStr ''u0''])) = Inr ()
   \<and> fst (remove_instance (snd (add_instance (demo_state [BStr ''u0'', BStr ''u0''])))) = Inr 2
   \<and> docs (jobs (snd (remove_instance (snd (add_instance (demo_state [BStr ''u0'', BStr ''u0''])))))) ''job''
       = Some [''executing'' \<mapsto> BList [BStr ''u0'', BStr ''u0'']]"
  using add_remove_instance_balance
    [of "demo_state [BStr ''u0'', BStr ''u0'']" "[''executing'' \<mapsto> BList [BStr ''u0'', BStr ''u0'']]"
        "[BStr ''u0'', BStr ''u0'']"]
  by (auto simp: demo_state_def demo_job_def)

text \<open>
  When the list already holds the id of the instance, the add gives a list of length
  2 and the removal returns 0.
\<close>

theorem add_remove_instance_counterexample:
  "the (the (docs (jobs (snd (add_instance (demo_state [BStr ''u1''])))) ''job'') ''executing'')
     = BList [BStr ''u1'', BStr ''u1'']
   \<and> fst (remove_instance (snd (add_instance (demo_state [BStr ''u1''])))) = Inr 0"
  by (simp add: demo_state_def demo_job_def add_instance_def remove_instance_def update_one_def
        find_and_modify_def op_push_def op_pull_def tick_def issue_def)

section \<open>Argument checks of acquire\<close>

text \<open>
  Claim C8 (amended). \<^verbatim>\<open>acquire\<close> with \<^verbatim>\<open>blocking=False\<close> and a timeout other than -1
  raises \<^verbatim>\<open>ValueError\<close>; with \<^verbatim>\<open>blocking=True\<close> and a timeout above \<^verbatim>\<open>TIMEOUT_MAX\<close> it
  raises \<^verbatim>\<open>OverflowError\<close>. In both cases the collection is returned as it was: no
  call has been made on it.
\<close>

theorem acquire_validation:
  "(\<not> blocking \<and> timeout \<noteq> - 1 \<longrightarrow>
      acquire TIMEOUT_MAX inner sch lk blocking timeout c = Some (Inl ValueError, c)) \<and>
   (blocking \<and> timeout > TIMEOUT_MAX \<longrightarrow>
      acquire TIMEOUT_MAX inner sch lk blocking timeout c = Some (Inl OverflowError, c))"
  by (simp add: acquire_def)

theorem acquire_validation_witness:
  "acquire 100000 Lock_acquire [] (the_lock ''job'' 5) False 3
      \<lparr>docs = [''job'' \<mapsto> Map.empty], calls = 0\<rparr>
     = Some (Inl ValueError, \<lparr>docs = [''job'' \<mapsto> Map.empty], calls = 0\<rparr>)
   \<and> acquire 100000 Lock_acquire [] (the_lock ''job'' 5) True 100001
      \<lparr>docs = [''job'' \<mapsto> Map.empty], calls = 0\<rparr>
     = Some (Inl OverflowError, \<lparr>docs = [''job'' \<mapsto> Map.empty], calls = 0\<rparr>)"
  using acquire_validation [of False 3 100000 Lock_acquire "[]" "the_lock ''job'' 5"
          "\<lparr>docs = [''job'' \<mapsto> Map.empty], calls = 0\<rparr>"]
        acquire_validation [of True 100001 100000 Lock_acquire "[]" "the_lock ''job'' 5"
          "\<lparr>docs = [''job'' \<mapsto> Map.empty], calls = 0\<rparr>"]
  by simp

text \<open>
  With \<^verbatim>\<open>blocking=False\<close>, a timeout above the maximum raises \<^verbatim>\<open>ValueError\<close>, not
  \<^verbatim>\<open>OverflowError\<close>: the first check comes first.
\<close>

theorem acquire_overflow_counterexample:
  "acquire 100000 Lock_acquire [] (the_lock ''job'' 5) False 100001
      \<lparr>docs = [''job'' \<mapsto> Map.empty], calls = 0\<rparr>
     = Some (Inl ValueError, \<lparr>docs = [''job'' \<mapsto> Map.empty], calls = 0\<rparr>)
   \<and> acquire 100000 Lock_acquire [] (the_lock ''job'' 5) False 100001
      \<lparr>docs = [''job'' \<mapsto> Map.empty], calls = 0\<rparr>
     \<noteq> Some (Inl OverflowError, \<lparr>docs = [''job'' \<mapsto> Map.empty], calls = 0\<rparr>)"
  by (simp add: acquire_def)

section \<open>The pulse worker\<close>

text \<open>
  Claim C6 (the code departs from it). When the first wait of the pulse worker runs out,
  the worker does not write the heartbeat: the update it passes is a tuple,
  \<^verbatim>\<open>update_one\<close> raises \<^verbatim>\<open>TypeError\<close>, the worker ends, and the collection is unchanged.
\<close>

theorem pulse_worker_first_beat_crashes:
  "pulse_worker c job_id unique_id (Beat now # ws) = (Crashed TypeError, c)"
  by (simp add: update_one_def)

end
